theory Spec2Isabelle
  imports Main
begin

section \<open>Python strings\<close>

text \<open>
  A Python \<open>str\<close> is a sequence of Unicode code points, and \<open>len\<close> and slicing count code
  points. A string is therefore a list of code points (natural numbers); \<open>ascii\<close> reads an
  ASCII literal, and the four non-ASCII characters of \<open>main.py\<close> are written by number:
  U+2011 = 8209 (non-breaking hyphen), U+2019 = 8217 (right single quotation mark),
  U+2022 = 8226 (bullet), U+2026 = 8230 (horizontal ellipsis).
\<close>

type_synonym pystr = "nat list"

definition ascii :: "string \<Rightarrow> pystr" where
  "ascii s = map of_char s"

text \<open>\<open>s.startswith(p)\<close> and \<open>sub in s\<close>.\<close>

definition startswith :: "pystr \<Rightarrow> pystr \<Rightarrow> bool" where
  "startswith s p = (take (length p) s = p)"

fun contains :: "pystr \<Rightarrow> pystr \<Rightarrow> bool" where
  "contains sub [] = (sub = [])"
| "contains sub (c # cs) = (startswith (c # cs) sub \<or> contains sub cs)"

text \<open>
  \<open>str.strip()\<close> removes leading and trailing whitespace, which for Python is the code
  points below; \<open>str.strip(chars)\<close> removes the code points of \<open>chars\<close> instead.
\<close>

definition is_space :: "nat \<Rightarrow> bool" where
  "is_space c = ((9 \<le> c \<and> c \<le> 13) \<or> (28 \<le> c \<and> c \<le> 32) \<or> c = 133 \<or> c = 160
      \<or> c = 5760 \<or> (8192 \<le> c \<and> c \<le> 8202) \<or> c = 8232 \<or> c = 8233 \<or> c = 8239
      \<or> c = 8287 \<or> c = 12288)"

definition strip_chars :: "(nat \<Rightarrow> bool) \<Rightarrow> pystr \<Rightarrow> pystr" where
  "strip_chars P s = rev (dropWhile P (rev (dropWhile P s)))"

definition strip :: "pystr \<Rightarrow> pystr" where
  "strip s = strip_chars is_space s"

text \<open>
  \<open>str.lower()\<close> maps every ASCII code point by the ASCII rule (\<open>A\<close>..\<open>Z\<close> to \<open>a\<close>..\<open>z\<close>, the
  rest unchanged). What it does to a code point from 128 on is given by the Unicode
  character database, which may answer with several code points and, for the capital
  sigma, looks at the neighbouring text; that table is not part of the repository and is
  a parameter: \<open>lx left right c\<close> is the lower-case form of the non-ASCII code point \<open>c\<close>
  standing between \<open>left\<close> and \<open>right\<close>.
\<close>

type_synonym lower_special = "pystr \<Rightarrow> pystr \<Rightarrow> nat \<Rightarrow> pystr"

definition ascii_lower :: "nat \<Rightarrow> nat" where
  "ascii_lower c = (if 65 \<le> c \<and> c \<le> 90 then c + 32 else c)"

fun lower_from :: "lower_special \<Rightarrow> pystr \<Rightarrow> pystr \<Rightarrow> pystr" where
  "lower_from lx left [] = []"
| "lower_from lx left (c # cs) =
     (if c < 128 then [ascii_lower c] else lx left cs c) @ lower_from lx (left @ [c]) cs"

definition lower :: "lower_special \<Rightarrow> pystr \<Rightarrow> pystr" where
  "lower lx s = lower_from lx [] s"

text \<open>A table that leaves every non-ASCII code point as it is, for concrete runs.\<close>

definition keep_nonascii :: lower_special where
  "keep_nonascii left right c = [c]"

text \<open>
  \<open>s.split(sep, 1)\<close> and \<open>s.split(sep)\<close> for a separator of one code point, \<open>sep.join(xs)\<close>,
  and indexing a list, which raises \<open>IndexError\<close> out of range.
\<close>

datatype error =
    HTTPException nat pystr
  | RequestValidationError
  | ValidationError
  | IndexError
  | StoreError pystr

definition split_once :: "nat \<Rightarrow> pystr \<Rightarrow> pystr list" where
  "split_once sep s =
     (if sep \<in> set s then [takeWhile (\<lambda>c. c \<noteq> sep) s, tl (dropWhile (\<lambda>c. c \<noteq> sep) s)]
      else [s])"

fun split_on :: "nat \<Rightarrow> pystr \<Rightarrow> pystr list" where
  "split_on sep [] = [[]]"
| "split_on sep (c # cs) =
     (if c = sep then [] # split_on sep cs
      else (case split_on sep cs of [] \<Rightarrow> [[c]] | w # ws \<Rightarrow> (c # w) # ws))"

fun join :: "pystr \<Rightarrow> pystr list \<Rightarrow> pystr" where
  "join sep [] = []"
| "join sep [x] = x"
| "join sep (x # y # ys) = x @ sep @ join sep (y # ys)"

definition index :: "'a list \<Rightarrow> nat \<Rightarrow> error + 'a" where
  "index xs i = (if i < length xs then Inr (xs ! i) else Inl IndexError)"

section \<open>The chat reply rules (\<open>chat\<close>, lines 59 to 80)\<close>

definition greeting_reply :: pystr where
  "greeting_reply = ascii ''Hello! I'' @ [39] @ ascii ''m Vionix, your all'' @ [8209]
     @ ascii ''in'' @ [8209] @ ascii ''one AI assistant. How can I help today?''"

definition help_reply :: pystr where
  "help_reply = ascii ''I can organize tasks, summarize text, draft emails, brainstorm ideas, ''
     @ ascii ''and answer quick questions. Tell me what you need.''"

definition summary_prefix :: pystr where
  "summary_prefix = ascii ''Here'' @ [8217] @ ascii ''s a concise summary: ''"

definition fallback_reply :: pystr where
  "fallback_reply = ascii ''Got it. I'' @ [8217] @ ascii ''m processing your request. In this demo, I''
     @ [8217] @ ascii ''m running in local smart mode ''
     @ ascii ''without external LLMs, so responses are templated. ''
     @ ascii ''Tell me if you want a summary, todo, or general help.''"

text \<open>The conditions of the four \<open>if\<close>/\<open>elif\<close> tests, on \<open>text = message.strip().lower()\<close>.\<close>

definition greeting_rule :: "pystr \<Rightarrow> bool" where
  "greeting_rule text =
     list_ex (\<lambda>k. contains k text) [ascii ''hello'', ascii ''hi'', ascii ''hey'']"

definition help_rule :: "pystr \<Rightarrow> bool" where
  "help_rule text = (contains (ascii ''help'') text \<or> contains (ascii ''what can you do'') text)"

definition summarize_rule :: "pystr \<Rightarrow> bool" where
  "summarize_rule text =
     (startswith text (ascii ''summarize:'') \<or> startswith text (ascii ''summarise:''))"

definition todo_rule :: "pystr \<Rightarrow> bool" where
  "todo_rule text = (startswith text (ascii ''todo:'') \<or> startswith text (ascii ''task:''))"

text \<open>
  Line 69: \<open>message.split(":", 1)[1].strip() if ":" in message else message\<close>.
  Line 73: \<open>[i.strip(" -\<bullet>") for i in message.split("\n") if i.strip()]\<close>.
\<close>

definition summarize_content :: "pystr \<Rightarrow> error + pystr" where
  "summarize_content message =
     (if contains (ascii '':'') message
      then (case index (split_once 58 message) 1 of Inl e \<Rightarrow> Inl e | Inr r \<Rightarrow> Inr (strip r))
      else Inr message)"

definition todo_items :: "pystr \<Rightarrow> pystr list" where
  "todo_items message =
     map (strip_chars (\<lambda>c. c \<in> set (ascii '' -'' @ [8226])))
       (filter (\<lambda>i. strip i \<noteq> []) (split_on 10 message))"

definition chat_reply :: "lower_special \<Rightarrow> pystr \<Rightarrow> error + pystr" where
  "chat_reply lx message =
     (let text = lower lx (strip message) in
      if greeting_rule text then Inr greeting_reply
      else if help_rule text then Inr help_reply
      else if summarize_rule text then
        (case summarize_content message of
           Inl e \<Rightarrow> Inl e
         | Inr content \<Rightarrow>
             Inr (summary_prefix @ (take 200 content @ (if 200 < length content then [8230] else []))))
      else if todo_rule text then
        (let items = todo_items message;
             bullets = join [10] (map (\<lambda>i. [8226, 32] @ i) items)
         in Inr (ascii ''Added to your list:'' @ [10] @ bullets))
      else Inr fallback_reply)"

section \<open>Messages, requests and responses\<close>

text \<open>
  Values as they stand in a stored document, which the service reads back unchecked:
  \<open>None\<close>, a string or a number.
\<close>

datatype pyval = PyNone | PyStr pystr | PyInt int

type_synonym doc = "(pystr \<times> pyval) list"

definition dict_get :: "doc \<Rightarrow> pystr \<Rightarrow> pyval \<Rightarrow> pyval" where
  "dict_get d k dflt = (case map_of d k of None \<Rightarrow> dflt | Some v \<Rightarrow> v)"

datatype role = User | Assistant

record message =
  session_id :: pystr
  role :: role
  content :: pystr

text \<open>
  Modelled from the spec: the class \<open>Message\<close> of the module \<open>schemas\<close>, which is not
  among the sources. The spec gives it the fields session_id (a string), role (one of
  user and assistant) and content (free text); constructing it from anything else raises
  a validation error.
\<close>

definition Message :: "pyval \<Rightarrow> pyval \<Rightarrow> pyval \<Rightarrow> error + message" where
  "Message sid r c =
     (case sid of
        PyStr s \<Rightarrow>
          (case c of
             PyStr t \<Rightarrow>
               (if r = PyStr (ascii ''user'')
                then Inr \<lparr>session_id = s, role = User, content = t\<rparr>
                else if r = PyStr (ascii ''assistant'')
                then Inr \<lparr>session_id = s, role = Assistant, content = t\<rparr>
                else Inl ValidationError)
           | _ \<Rightarrow> Inl ValidationError)
      | _ \<Rightarrow> Inl ValidationError)"

record chat_request =
  req_session_id :: "pystr option"
  req_message :: pystr

record chat_response =
  resp_session_id :: pystr
  reply :: pystr

record messages_response =
  msgs_session_id :: pystr
  messages :: "message list"

section \<open>What the service runs on\<close>

text \<open>
  The module \<open>database\<close> (\<open>create_document\<close>, \<open>get_documents\<close> and the handle \<open>db\<close>), the
  generator behind \<open>uuid.uuid4()\<close> and the Unicode table of \<open>str.lower()\<close> are outside the
  sources and are parameters. A store operation takes the store and returns the store
  after it, or the exception it raised; \<open>uuid4 n\<close> is the text of the identifier that the
  call number \<open>n\<close> of \<open>uuid.uuid4()\<close> draws. The state of the process is the handle
  \<open>db\<close>, which is \<open>None\<close> when no database is configured, and the number of
  identifiers drawn so far.
\<close>

record 'db platform =
  unicode_lower :: lower_special
  uuid4 :: "nat \<Rightarrow> pystr"
  create_document :: "pystr \<Rightarrow> message \<Rightarrow> 'db \<Rightarrow> error + 'db"
  get_documents :: "pystr \<Rightarrow> doc \<Rightarrow> int \<Rightarrow> 'db \<Rightarrow> error + doc list"

record 'db world =
  db :: "'db option"
  uuid_calls :: nat

section \<open>The handlers\<close>

text \<open>Line 53: \<open>req.session_id or str(uuid.uuid4())\<close>; \<open>None\<close> and the empty string are false.\<close>

definition session_id_or_new ::
  "'db platform \<Rightarrow> 'db world \<Rightarrow> pystr option \<Rightarrow> pystr \<times> 'db world" where
  "session_id_or_new pf w given =
     (case given of
        None \<Rightarrow> (uuid4 pf (uuid_calls w), w\<lparr>uuid_calls := Suc (uuid_calls w)\<rparr>)
      | Some s \<Rightarrow>
          if s \<noteq> [] then (s, w)
          else (uuid4 pf (uuid_calls w), w\<lparr>uuid_calls := Suc (uuid_calls w)\<rparr>))"

definition chat ::
  "'db platform \<Rightarrow> 'db world \<Rightarrow> chat_request \<Rightarrow> (error + chat_response) \<times> 'db world" where
  "chat pf w req =
     (case db w of
        None \<Rightarrow> (Inl (HTTPException 500 (ascii ''Database not available'')), w)
      | Some d0 \<Rightarrow>
          (case session_id_or_new pf w (req_session_id req) of
             (sid, w1) \<Rightarrow>
               (case Message (PyStr sid) (PyStr (ascii ''user'')) (PyStr (req_message req)) of
                  Inl e \<Rightarrow> (Inl e, w1)
                | Inr user_msg \<Rightarrow>
                    (case create_document pf (ascii ''message'') user_msg d0 of
                       Inl e \<Rightarrow> (Inl e, w1)
                     | Inr d1 \<Rightarrow>
                         (case chat_reply (unicode_lower pf) (req_message req) of
                            Inl e \<Rightarrow> (Inl e, w1\<lparr>db := Some d1\<rparr>)
                          | Inr rep \<Rightarrow>
                              (case Message (PyStr sid) (PyStr (ascii ''assistant'')) (PyStr rep) of
                                 Inl e \<Rightarrow> (Inl e, w1\<lparr>db := Some d1\<rparr>)
                               | Inr assistant_msg \<Rightarrow>
                                   (case create_document pf (ascii ''message'') assistant_msg d1 of
                                      Inl e \<Rightarrow> (Inl e, w1\<lparr>db := Some d1\<rparr>)
                                    | Inr d2 \<Rightarrow>
                                        (Inr \<lparr>resp_session_id = sid, reply = rep\<rparr>,
                                         w1\<lparr>db := Some d2\<rparr>))))))))"

text \<open>
  Lines 101 to 106: the loop over the documents read, with \<open>msgs\<close> the list built so far.
  \<open>except Exception: continue\<close> goes on with the next document.
\<close>

fun get_messages_loop :: "pystr \<Rightarrow> doc list \<Rightarrow> message list \<Rightarrow> message list" where
  "get_messages_loop sid [] msgs = msgs"
| "get_messages_loop sid (d # ds) msgs =
     (case Message (dict_get d (ascii ''session_id'') (PyStr sid))
             (dict_get d (ascii ''role'') (PyStr (ascii ''user'')))
             (dict_get d (ascii ''content'') (PyStr [])) of
        Inl e \<Rightarrow> get_messages_loop sid ds msgs
      | Inr m \<Rightarrow> get_messages_loop sid ds (msgs @ [m]))"

definition get_messages ::
  "'db platform \<Rightarrow> 'db world \<Rightarrow> pystr \<Rightarrow> int \<Rightarrow> (error + messages_response) \<times> 'db world" where
  "get_messages pf w sid limit =
     (case db w of
        None \<Rightarrow> (Inl (HTTPException 500 (ascii ''Database not available'')), w)
      | Some d \<Rightarrow>
          (case get_documents pf (ascii ''message'') [(ascii ''session_id'', PyStr sid)] limit d of
             Inl e \<Rightarrow> (Inl e, w)
           | Inr docs \<Rightarrow>
               (Inr \<lparr>msgs_session_id = sid, messages = get_messages_loop sid docs []\<rparr>, w)))"

text \<open>
  The routes as FastAPI serves them: the declared constraints of the request are checked
  first, and a request that breaks one is answered by a validation error without the
  handler being called. \<open>ChatRequest.message\<close> has \<open>min_length=1\<close>; \<open>session_id\<close> of
  \<open>GET /api/messages\<close> is required, and \<open>limit\<close> is \<open>Query(50, ge=1, le=200)\<close>.
\<close>

definition post_api_chat ::
  "'db platform \<Rightarrow> 'db world \<Rightarrow> chat_request \<Rightarrow> (error + chat_response) \<times> 'db world" where
  "post_api_chat pf w req =
     (if length (req_message req) < 1 then (Inl RequestValidationError, w) else chat pf w req)"

definition get_api_messages ::
  "'db platform \<Rightarrow> 'db world \<Rightarrow> pystr option \<Rightarrow> int option
     \<Rightarrow> (error + messages_response) \<times> 'db world" where
  "get_api_messages pf w session_id_param limit_param =
     (case session_id_param of
        None \<Rightarrow> (Inl RequestValidationError, w)
      | Some sid \<Rightarrow>
          (let limit = (case limit_param of None \<Rightarrow> 50 | Some l \<Rightarrow> l) in
           if limit < 1 \<or> 200 < limit then (Inl RequestValidationError, w)
           else get_messages pf w sid limit))"

section \<open>A store to run the handlers on\<close>

text \<open>
  The module \<open>database\<close> is not among the sources. The spec names its two operations:
  inserting a message record, and querying the records of a collection by session id
  with a limit on the number of results. The definitions below give one store that does
  this, to run the handlers on: the list of the records in the order of insertion, each
  with the name of its collection.
\<close>

type_synonym store = "(pystr \<times> doc) list"

text \<open>Modelled from the spec: the document stored for a message holds its three fields.\<close>

definition doc_of_message :: "message \<Rightarrow> doc" where
  "doc_of_message m =
     [(ascii ''session_id'', PyStr (session_id m)),
      (ascii ''role'', PyStr (case role m of User \<Rightarrow> ascii ''user'' | Assistant \<Rightarrow> ascii ''assistant'')),
      (ascii ''content'', PyStr (content m))]"

text \<open>
  Modelled from the spec: \<open>create_document\<close> of the module \<open>database\<close> (absent), "insert a
  message record"; the record goes to the end of the store.
\<close>

definition store_create_document :: "pystr \<Rightarrow> message \<Rightarrow> store \<Rightarrow> error + store" where
  "store_create_document coll m st = Inr (st @ [(coll, doc_of_message m)])"

text \<open>
  Modelled from the spec: \<open>get_documents\<close> of the module \<open>database\<close> (absent), "query
  messages by session id with a result-count limit"; the records of the collection that
  have the fields of the filter, in the order of the store, at most \<open>limit\<close> of them.
\<close>

definition store_get_documents :: "pystr \<Rightarrow> doc \<Rightarrow> int \<Rightarrow> store \<Rightarrow> error + doc list" where
  "store_get_documents coll flt limit st =
     Inr (take (nat limit)
       (filter (\<lambda>d. list_all (\<lambda>kv. map_of d (fst kv) = Some (snd kv)) flt)
         (map snd (filter (\<lambda>r. fst r = coll) st))))"

text \<open>
  A stand-in for \<open>uuid.uuid4()\<close> whose draws are all different, and the platform made of
  the list store, this generator and the table \<open>keep_nonascii\<close>.
\<close>

definition serial_uuid4 :: "nat \<Rightarrow> pystr" where
  "serial_uuid4 n = ascii ''uuid-'' @ replicate (Suc n) 49"

definition list_platform :: "store platform" where
  "list_platform =
     \<lparr>unicode_lower = keep_nonascii, uuid4 = serial_uuid4,
      create_document = store_create_document, get_documents = store_get_documents\<rparr>"



section \<open>The behaviour described, for comparison with the handlers\<close>

text \<open>
  The rule table of the description: the rules in the order greeting keywords, help
  keywords, summarize prefix, todo or task prefix, each with the reply it gives, and the
  first rule that matches decides; the generic reply is the fallback.
\<close>

definition summary_of :: "pystr \<Rightarrow> pystr" where
  "summary_of body = (if length body \<le> 200 then body else take 200 body @ [8230])"

definition remainder :: "pystr \<Rightarrow> pystr" where
  "remainder message =
     (if 58 \<in> set message
      then strip (drop (Suc (length (takeWhile (\<lambda>c. c \<noteq> 58) message))) message)
      else message)"

definition bullet_list :: "pystr list \<Rightarrow> pystr" where
  "bullet_list items = join [10] (map (\<lambda>i. [8226, 32] @ i) items)"

fun first_match :: "(bool \<times> 'a) list \<Rightarrow> 'a \<Rightarrow> 'a" where
  "first_match [] dflt = dflt"
| "first_match (r # rs) dflt = (if fst r then snd r else first_match rs dflt)"

definition reply_rules :: "lower_special \<Rightarrow> pystr \<Rightarrow> (bool \<times> pystr) list" where
  "reply_rules lx message =
     (let text = lower lx (strip message) in
      [(greeting_rule text, greeting_reply),
       (help_rule text, help_reply),
       (summarize_rule text, summary_prefix @ summary_of (remainder message)),
       (todo_rule text, ascii ''Added to your list:'' @ [10] @ bullet_list (todo_items message))])"

text \<open>
  A keyword occurs in a message without regard to case when it occurs in the message
  once the letters \<open>A\<close>..\<open>Z\<close> of both are replaced by \<open>a\<close>..\<open>z\<close>.
\<close>

definition ci_contains :: "pystr \<Rightarrow> pystr \<Rightarrow> bool" where
  "ci_contains k s = contains (map ascii_lower k) (map ascii_lower s)"

text \<open>
  What one stored document contributes to the answer of \<open>GET /api/messages\<close>: the message
  built from its fields, with the defaults for the absent ones, or nothing when the
  message cannot be built.
\<close>

definition message_of_doc :: "pystr \<Rightarrow> doc \<Rightarrow> message option" where
  "message_of_doc sid d =
     (case Message (dict_get d (ascii ''session_id'') (PyStr sid))
             (dict_get d (ascii ''role'') (PyStr (ascii ''user'')))
             (dict_get d (ascii ''content'') (PyStr [])) of
        Inl e \<Rightarrow> None
      | Inr m \<Rightarrow> Some m)"

section \<open>Strings: substrings, stripping and lower case\<close>

lemma startswith_iff: "startswith s p \<longleftrightarrow> (\<exists>q. s = p @ q)"
  unfolding startswith_def
  by (metis append_eq_conv_conj append_take_drop_id)

lemma contains_iff: "contains sub s \<longleftrightarrow> (\<exists>p q. s = p @ sub @ q)"
proof (induction s)
  case Nil
  then show ?case by auto
next
  case (Cons c cs)
  show ?case
  proof
    assume "contains sub (c # cs)"
    then consider "startswith (c # cs) sub" | "contains sub cs" by auto
    then show "\<exists>p q. c # cs = p @ sub @ q"
    proof cases
      case 1
      then obtain q where "c # cs = sub @ q" by (auto simp: startswith_iff)
      then have "c # cs = [] @ sub @ q" by simp
      then show ?thesis by blast
    next
      case 2
      with Cons obtain p q where "cs = p @ sub @ q" by auto
      then have "c # cs = (c # p) @ sub @ q" by simp
      then show ?thesis by blast
    qed
  next
    assume "\<exists>p q. c # cs = p @ sub @ q"
    then obtain p q where pq: "c # cs = p @ sub @ q" by auto
    show "contains sub (c # cs)"
    proof (cases p)
      case Nil
      with pq have "startswith (c # cs) sub" unfolding startswith_iff by auto
      then show ?thesis by simp
    next
      case (Cons a p')
      with pq have "cs = p' @ sub @ q" by simp
      with Cons.IH show ?thesis by auto
    qed
  qed
qed

lemma contains_subset: "contains sub s \<Longrightarrow> set sub \<subseteq> set s"
  by (auto simp: contains_iff)

lemma contains_colon: "contains (ascii '':'') s \<longleftrightarrow> 58 \<in> set s"
proof -
  have "ascii '':'' = [58]" by (simp add: ascii_def)
  then show ?thesis
    by (auto simp: contains_iff in_set_conv_decomp)
qed

lemma dropWhile_keeps_from:
  "m \<noteq> [] \<Longrightarrow> \<not> P (hd m) \<Longrightarrow> \<exists>p'. dropWhile P (p @ m @ q) = p' @ m @ q"
proof (induction p)
  case Nil
  then have "dropWhile P (m @ q) = m @ q" by (cases m) auto
  then have "dropWhile P ([] @ m @ q) = [] @ m @ q" by simp
  then show ?case by blast
next
  case (Cons a p)
  then obtain p' where p': "dropWhile P (p @ m @ q) = p' @ m @ q" by auto
  show ?case
  proof (cases "P a")
    case True
    with p' show ?thesis by auto
  next
    case False
    then have "dropWhile P ((a # p) @ m @ q) = (a # p) @ m @ q" by simp
    then show ?thesis by blast
  qed
qed

lemma strip_chars_keeps:
  assumes "m \<noteq> []" and "\<not> P (hd m)" and "\<not> P (last m)"
  shows "\<exists>p' q'. strip_chars P (p @ m @ q) = p' @ m @ q'"
proof -
  obtain p' where 1: "dropWhile P (p @ m @ q) = p' @ m @ q"
    using dropWhile_keeps_from[where m = m and P = P and p = p and q = q] assms(1,2) by blast
  have "rev m \<noteq> []" "\<not> P (hd (rev m))"
    using assms by (simp_all add: hd_rev)
  then obtain q' where 2: "dropWhile P (rev q @ rev m @ rev p') = q' @ rev m @ rev p'"
    using dropWhile_keeps_from[where m = "rev m" and P = P and p = "rev q" and q = "rev p'"] by blast
  have "strip_chars P (p @ m @ q) = p' @ m @ rev q'"
    by (simp add: strip_chars_def 1 2)
  then show ?thesis by blast
qed

lemma strip_chars_keeps_prefix:
  assumes "m \<noteq> []" and "\<not> P (hd m)" and "\<not> P (last m)"
  shows "\<exists>q'. strip_chars P (m @ q) = m @ q'"
proof -
  have 1: "dropWhile P (m @ q) = m @ q" using assms by (cases m) auto
  have "rev m \<noteq> []" "\<not> P (hd (rev m))"
    using assms by (simp_all add: hd_rev)
  then obtain q' where 2: "dropWhile P (rev q @ rev m) = q' @ rev m"
    using dropWhile_keeps_from[where m = "rev m" and P = P and p = "rev q" and q = "[]"] by auto
  have "strip_chars P (m @ q) = m @ rev q'"
    by (simp add: strip_chars_def 1 2)
  then show ?thesis by blast
qed

lemma set_strip_chars: "set (strip_chars P s) \<subseteq> set s"
proof -
  have "set (dropWhile P (rev (dropWhile P s))) \<subseteq> set (rev (dropWhile P s))"
    by (rule set_dropWhileD[THEN subsetI]) 
  also have "\<dots> \<subseteq> set s"
    using set_dropWhileD by fastforce
  finally show ?thesis by (simp add: strip_chars_def)
qed

lemma strip_chars_unchanged:
  "s \<noteq> [] \<Longrightarrow> \<not> P (hd s) \<Longrightarrow> \<not> P (last s) \<Longrightarrow> strip_chars P s = s"
proof -
  assume s: "s \<noteq> []" "\<not> P (hd s)" "\<not> P (last s)"
  then have 1: "dropWhile P s = s" by (cases s) auto
  from s have "dropWhile P (rev s) = rev s" by (cases "rev s") (auto simp: hd_rev)
  with 1 show ?thesis by (simp add: strip_chars_def)
qed

lemma lower_from_ascii_prefix:
  "\<forall>c\<in>set m. c < 128 \<Longrightarrow>
   lower_from lx b (m @ q) = map ascii_lower m @ lower_from lx (b @ m) q"
  by (induction m arbitrary: b) auto

lemma lower_ascii: "\<forall>c\<in>set m. c < 128 \<Longrightarrow> lower lx m = map ascii_lower m"
  using lower_from_ascii_prefix[of m lx "[]" "[]"] by (simp add: lower_def)

lemma lower_from_append:
  "\<exists>X. lower_from lx b (p @ r) = X @ lower_from lx (b @ p) r"
proof (induction p arbitrary: b)
  case Nil
  show ?case by simp
next
  case (Cons a p)
  from Cons[of "b @ [a]"] obtain X where "lower_from lx (b @ [a]) (p @ r) = X @ lower_from lx (b @ a # p) r"
    by auto
  then show ?case by simp
qed

lemma lower_keeps_ascii:
  assumes "\<forall>c\<in>set m. c < 128"
  shows "\<exists>X Y. lower lx (p @ m @ q) = X @ map ascii_lower m @ Y"
proof -
  obtain X where "lower_from lx [] (p @ m @ q) = X @ lower_from lx ([] @ p) (m @ q)"
    using lower_from_append by blast
  then have "lower lx (p @ m @ q) = X @ map ascii_lower m @ lower_from lx (p @ m) q"
    by (simp add: lower_def lower_from_ascii_prefix[OF assms])
  then show ?thesis by blast
qed

lemma ascii_lower_ascii: "ascii_lower c < 128 \<Longrightarrow> c < 128"
  by (auto simp: ascii_lower_def split: if_splits)

lemma ascii_lower_space: "is_space c \<Longrightarrow> is_space (ascii_lower c)"
  by (auto simp: ascii_lower_def is_space_def)

lemma keyword_survives:
  assumes k: "k \<noteq> []" "\<forall>c\<in>set k. c < 128" "\<not> is_space (hd k)" "\<not> is_space (last k)"
    and c: "contains k (map ascii_lower message)"
  shows "contains k (lower lx (strip message))"
proof -
  from c obtain a b where "map ascii_lower message = a @ k @ b"
    by (auto simp: contains_iff)
  then obtain p r where pr: "message = p @ r" and "map ascii_lower r = k @ b"
    by (metis map_eq_append_conv)
  then obtain m q where "r = m @ q" and m: "map ascii_lower m = k"
    by (metis map_eq_append_conv)
  with pr have msg: "message = p @ m @ q" by simp
  from m k(1) have ne: "m \<noteq> []" by auto
  from m have "hd k = ascii_lower (hd m)" "last k = ascii_lower (last m)"
    using ne by (auto simp: hd_map last_map)
  with k(3,4) have sp: "\<not> is_space (hd m)" "\<not> is_space (last m)"
    using ascii_lower_space by auto
  from m k(2) have asc: "\<forall>c\<in>set m. c < 128"
    using ascii_lower_ascii by auto
  from strip_chars_keeps[OF ne sp] obtain p' q' where "strip message = p' @ m @ q'"
    unfolding strip_def msg by blast
  moreover obtain X Y where "lower lx (p' @ m @ q') = X @ map ascii_lower m @ Y"
    using lower_keeps_ascii[OF asc] by blast
  ultimately show ?thesis
    using m by (auto simp: contains_iff)
qed

lemma ascii_no_h:
  assumes "\<forall>c\<in>set message. c < 128 \<and> c \<noteq> 72 \<and> c \<noteq> 104"
  shows "104 \<notin> set (lower lx (strip message))"
proof
  assume h: "104 \<in> set (lower lx (strip message))"
  have sub: "set (strip message) \<subseteq> set message"
    unfolding strip_def by (rule set_strip_chars)
  with assms have "\<forall>c\<in>set (strip message). c < 128" by blast
  then have "lower lx (strip message) = map ascii_lower (strip message)"
    by (rule lower_ascii)
  with h obtain c where "c \<in> set (strip message)" and "ascii_lower c = 104" by auto
  with sub assms show False
    by (auto simp: ascii_lower_def split: if_splits)
qed

lemma strip_space_replicate:
  assumes "0 < n"
  shows "strip (32 # replicate n 120) = replicate n 120"
proof -
  have "strip_chars is_space (32 # replicate n 120) = strip_chars is_space (replicate n 120)"
    by (simp add: strip_chars_def is_space_def)
  moreover have "strip_chars is_space (replicate n 120) = replicate n 120"
    using assms by (intro strip_chars_unchanged) (auto simp: is_space_def)
  ultimately show ?thesis by (simp add: strip_def)
qed

section \<open>The reply rules\<close>

lemma greeting_keywords:
  assumes "k \<in> set [ascii ''hello'', ascii ''hi'', ascii ''hey'']"
  shows "k \<noteq> [] \<and> (\<forall>c\<in>set k. c < 128) \<and> \<not> is_space (hd k) \<and> \<not> is_space (last k)
     \<and> map ascii_lower k = k"
  using assms by (auto simp: ascii_def is_space_def ascii_lower_def)

lemma greeting_rule_ci:
  assumes "k \<in> set [ascii ''hello'', ascii ''hi'', ascii ''hey'']" and "ci_contains k message"
  shows "greeting_rule (lower lx (strip message))"
proof -
  from greeting_keywords[OF assms(1)] assms(2)
  have "contains k (lower lx (strip message))"
    by (intro keyword_survives) (auto simp: ci_contains_def)
  with assms(1) show ?thesis
    unfolding greeting_rule_def list_ex_iff by blast
qed

lemma chat_reply_greeting:
  assumes "k \<in> set [ascii ''hello'', ascii ''hi'', ascii ''hey'']" and "ci_contains k message"
  shows "chat_reply lx message = Inr greeting_reply"
  using greeting_rule_ci[OF assms] by (simp add: chat_reply_def)

lemma no_h_no_keyword:
  assumes "104 \<notin> set text"
  shows "\<not> greeting_rule text \<and> \<not> help_rule text"
proof -
  have "104 \<in> set k" if "k \<in> set [ascii ''hello'', ascii ''hi'', ascii ''hey'',
      ascii ''help'', ascii ''what can you do'']" for k
    using that by (auto simp: ascii_def)
  with assms have "\<not> contains k text" if "k \<in> set [ascii ''hello'', ascii ''hi'', ascii ''hey'',
      ascii ''help'', ascii ''what can you do'']" for k
    using that contains_subset by blast
  then show ?thesis
    by (simp add: greeting_rule_def help_rule_def)
qed

lemma split_once_second:
  "sep \<in> set s \<Longrightarrow> index (split_once sep s) (Suc 0)
     = Inr (drop (Suc (length (takeWhile (\<lambda>c. c \<noteq> sep) s))) s)"
proof -
  assume "sep \<in> set s"
  have "tl (dropWhile (\<lambda>c. c \<noteq> sep) s) = drop (Suc (length (takeWhile (\<lambda>c. c \<noteq> sep) s))) s"
    by (simp add: dropWhile_eq_drop drop_Suc tl_drop)
  with \<open>sep \<in> set s\<close> show ?thesis
    by (simp add: index_def split_once_def)
qed

lemma summarize_content_total: "summarize_content message = Inr (remainder message)"
  by (simp add: summarize_content_def remainder_def contains_colon split_once_second)

lemma summary_of_alt:
  "take 200 body @ (if 200 < length body then [8230] else []) = summary_of body"
  by (simp add: summary_of_def)

lemma bullet_prefix: "(@) [a, b] = (\<lambda>i. a # b # i)"
  by auto

lemma summarize_prefixes:
  assumes "pre \<in> set [ascii ''summarize:'', ascii ''summarise:'']"
  shows "pre \<noteq> [] \<and> (\<forall>c\<in>set pre. c < 128) \<and> \<not> is_space (hd pre) \<and> \<not> is_space (last pre)
     \<and> map ascii_lower pre = pre \<and> takeWhile (\<lambda>c. c \<noteq> 58) (pre @ rest) = butlast pre
     \<and> length pre = 10 \<and> 58 \<in> set pre \<and> 104 \<notin> set pre"
  using assms by (auto simp: ascii_def is_space_def ascii_lower_def)

lemma summarize_rule_prefix:
  assumes "pre \<in> set [ascii ''summarize:'', ascii ''summarise:'']"
  shows "summarize_rule (lower lx (strip (pre @ rest)))"
proof -
  note f = summarize_prefixes[OF assms, of rest]
  from f obtain q' where "strip (pre @ rest) = pre @ q'"
    unfolding strip_def using strip_chars_keeps_prefix by blast
  moreover have "lower lx (pre @ q') = pre @ lower_from lx pre q'"
    using f by (simp add: lower_def lower_from_ascii_prefix)
  ultimately have "startswith (lower lx (strip (pre @ rest))) pre"
    by (simp add: startswith_iff)
  with assms show ?thesis
    unfolding summarize_rule_def by auto
qed

lemma remainder_prefix:
  assumes "pre \<in> set [ascii ''summarize:'', ascii ''summarise:'']"
  shows "remainder (pre @ rest) = strip rest"
  using summarize_prefixes[OF assms, of rest] by (simp add: remainder_def)

lemma chat_reply_summarize:
  assumes "pre \<in> set [ascii ''summarize:'', ascii ''summarise:'']"
    and "\<not> greeting_rule (lower lx (strip (pre @ rest)))"
    and "\<not> help_rule (lower lx (strip (pre @ rest)))"
  shows "chat_reply lx (pre @ rest) = Inr (summary_prefix @ summary_of (strip rest))"
  using assms(2,3) summarize_rule_prefix[OF assms(1), of lx rest]
  by (simp add: chat_reply_def summarize_content_total remainder_prefix[OF assms(1)] summary_of_alt)

section \<open>The handlers\<close>

lemma ascii_user_neq_assistant: "ascii ''assistant'' \<noteq> ascii ''user''"
  by (simp add: ascii_def)

lemma Message_user:
  "Message (PyStr s) (PyStr (ascii ''user'')) (PyStr t) = Inr \<lparr>session_id = s, role = User, content = t\<rparr>"
  by (simp add: Message_def)

lemma Message_assistant:
  "Message (PyStr s) (PyStr (ascii ''assistant'')) (PyStr t)
     = Inr \<lparr>session_id = s, role = Assistant, content = t\<rparr>"
  by (simp add: Message_def ascii_user_neq_assistant)

lemma chat_with_db:
  "db w = Some d0 \<Longrightarrow>
   chat pf w req =
     (case session_id_or_new pf w (req_session_id req) of
        (sid, w1) \<Rightarrow>
          (case create_document pf (ascii ''message'')
                  \<lparr>session_id = sid, role = User, content = req_message req\<rparr> d0 of
             Inl e \<Rightarrow> (Inl e, w1)
           | Inr d1 \<Rightarrow>
               (case chat_reply (unicode_lower pf) (req_message req) of
                  Inl e \<Rightarrow> (Inl e, w1\<lparr>db := Some d1\<rparr>)
                | Inr rep \<Rightarrow>
                    (case create_document pf (ascii ''message'')
                            \<lparr>session_id = sid, role = Assistant, content = rep\<rparr> d1 of
                       Inl e \<Rightarrow> (Inl e, w1\<lparr>db := Some d1\<rparr>)
                     | Inr d2 \<Rightarrow>
                         (Inr \<lparr>resp_session_id = sid, reply = rep\<rparr>, w1\<lparr>db := Some d2\<rparr>)))))"
  by (simp add: chat_def Message_user Message_assistant split: prod.splits sum.splits)

lemma chat_success:
  assumes "chat pf w req = (Inr resp, w')"
  obtains d0 d1 d2 sid w1 rep where
    "db w = Some d0"
    "session_id_or_new pf w (req_session_id req) = (sid, w1)"
    "create_document pf (ascii ''message'') \<lparr>session_id = sid, role = User, content = req_message req\<rparr> d0 = Inr d1"
    "chat_reply (unicode_lower pf) (req_message req) = Inr rep"
    "create_document pf (ascii ''message'') \<lparr>session_id = sid, role = Assistant, content = rep\<rparr> d1 = Inr d2"
    "resp = \<lparr>resp_session_id = sid, reply = rep\<rparr>"
    "w' = w1\<lparr>db := Some d2\<rparr>"
proof -
  from assms obtain d0 where d0: "db w = Some d0"
    by (cases "db w") (auto simp: chat_def)
  obtain sid w1 where s: "session_id_or_new pf w (req_session_id req) = (sid, w1)"
    by (cases "session_id_or_new pf w (req_session_id req)")
  from assms show thesis
    using that[OF d0 s]
    by (simp add: chat_with_db[OF d0] s split: sum.splits)
qed

lemma session_id_or_new_None:
  "session_id_or_new pf w None = (uuid4 pf (uuid_calls w), w\<lparr>uuid_calls := Suc (uuid_calls w)\<rparr>)"
  by (simp add: session_id_or_new_def)

lemma session_id_or_new_empty:
  "session_id_or_new pf w (Some []) = session_id_or_new pf w None"
  by (simp add: session_id_or_new_def)

lemma reply_of_response:
  assumes "fst (post_api_chat pf w req) = Inr resp"
  shows "chat_reply (unicode_lower pf) (req_message req) = Inr (reply resp)"
proof -
  from assms have "fst (chat pf w req) = Inr resp"
    by (simp add: post_api_chat_def split: if_splits)
  then have "chat pf w req = (Inr resp, snd (chat pf w req))"
    by (metis prod.collapse)
  then show ?thesis
    by (elim chat_success) simp
qed

lemma get_messages_loop_map_filter:
  "get_messages_loop sid docs msgs = msgs @ List.map_filter (message_of_doc sid) docs"
  by (induction docs arbitrary: msgs)
     (simp_all add: List.map_filter_simps message_of_doc_def split: sum.splits)

text \<open>Running \<open>chat\<close> on the list store, where no insert fails.\<close>

lemma chat_list_platform:
  assumes "chat_reply keep_nonascii (req_message req) = Inr rep"
    and "session_id_or_new list_platform \<lparr>db = Some st, uuid_calls = n\<rparr> (req_session_id req)
       = (sid, \<lparr>db = Some st, uuid_calls = n'\<rparr>)"
  shows "chat list_platform \<lparr>db = Some st, uuid_calls = n\<rparr> req =
     (Inr \<lparr>resp_session_id = sid, reply = rep\<rparr>,
      \<lparr>db = Some (st @ [(ascii ''message'',
                doc_of_message \<lparr>session_id = sid, role = User, content = req_message req\<rparr>),
             (ascii ''message'',
                doc_of_message \<lparr>session_id = sid, role = Assistant, content = rep\<rparr>)]),
       uuid_calls = n'\<rparr>)"
proof -
  have "db \<lparr>db = Some st, uuid_calls = n\<rparr> = Some st" by simp
  from chat_with_db[OF this, of list_platform req] assms show ?thesis
    by (simp add: list_platform_def store_create_document_def)
qed


section \<open>The claims\<close>

text \<open>
  C1, as the code has it. The rules are tried in order, so a message that begins with
  \<open>summarize:\<close> or \<open>summarise:\<close> is summarised only when neither the greeting rule nor
  the help rule matches it; and the text summarised is what follows the colon with the
  whitespace around it removed. For such a message the reply is \<open>Here's a concise
  summary:\<close> followed by that text whole and with no ellipsis when it has 200 characters
  or fewer, and by its first 200 characters and the ellipsis when it has more.
\<close>

theorem summarize_reply_truncates_at_200:
  assumes "pre \<in> set [ascii ''summarize:'', ascii ''summarise:'']"
    and "\<not> greeting_rule (lower (unicode_lower pf) (strip (pre @ rest)))"
    and "\<not> help_rule (lower (unicode_lower pf) (strip (pre @ rest)))"
  shows "chat_reply (unicode_lower pf) (pre @ rest) = Inr (summary_prefix @ summary_of (strip rest))
     \<and> (\<forall>w req resp. req_message req = pre @ rest \<and> fst (post_api_chat pf w req) = Inr resp
           \<longrightarrow> reply resp = summary_prefix @ summary_of (strip rest))
     \<and> (200 < length (strip rest) \<longrightarrow> summary_of (strip rest) = take 200 (strip rest) @ [8230])
     \<and> (length (strip rest) \<le> 200 \<longrightarrow> summary_of (strip rest) = strip rest)"
proof -
  have r: "chat_reply (unicode_lower pf) (pre @ rest) = Inr (summary_prefix @ summary_of (strip rest))"
    using assms by (rule chat_reply_summarize)
  moreover have "reply resp = summary_prefix @ summary_of (strip rest)"
    if "req_message req = pre @ rest" and "fst (post_api_chat pf w req) = Inr resp" for w req resp
    using reply_of_response[OF that(2)] r that(1) by simp
  moreover have "200 < length (strip rest) \<longrightarrow> summary_of (strip rest) = take 200 (strip rest) @ [8230]"
    by (simp add: summary_of_def)
  moreover have "length (strip rest) \<le> 200 \<longrightarrow> summary_of (strip rest) = strip rest"
    by (simp add: summary_of_def)
  ultimately show ?thesis by blast
qed

theorem summarize_reply_truncates_at_200_witness:
  "chat_reply (unicode_lower list_platform) (ascii ''summarize:'' @ 32 # replicate 201 120)
     = Inr (summary_prefix @ summary_of (strip (32 # replicate 201 120)))
   \<and> reply \<lparr>resp_session_id = ascii ''s'',
            reply = summary_prefix @ summary_of (strip (32 # replicate 201 120))\<rparr>
     = summary_prefix @ summary_of (strip (32 # replicate 201 120))
   \<and> summary_of (strip (32 # replicate 201 120)) = take 200 (strip (32 # replicate 201 120)) @ [8230]
   \<and> strip (32 # replicate 201 120) = replicate 201 120
   \<and> chat_reply (unicode_lower list_platform) (ascii ''summarise:'' @ ascii '' plain text '')
     = Inr (summary_prefix @ summary_of (strip (ascii '' plain text '')))
   \<and> summary_of (strip (ascii '' plain text '')) = strip (ascii '' plain text '')
   \<and> strip (ascii '' plain text '') = ascii ''plain text''"
proof -
  let ?rest = "32 # replicate 201 120"
  let ?m = "ascii ''summarize:'' @ ?rest"
  let ?r = "summary_prefix @ summary_of (strip ?rest)"
  let ?req = "\<lparr>req_session_id = Some (ascii ''s''), req_message = ?m\<rparr>"
  let ?w = "\<lparr>db = Some [], uuid_calls = 0\<rparr> :: store world"
  have p: "ascii ''summarize:'' \<in> set [ascii ''summarize:'', ascii ''summarise:'']" by simp
  have "\<forall>c\<in>set ?m. c < 128 \<and> c \<noteq> 72 \<and> c \<noteq> 104"
    by (auto simp: ascii_def)
  then have "104 \<notin> set (lower (unicode_lower list_platform) (strip ?m))"
    by (rule ascii_no_h)
  then have n: "\<not> greeting_rule (lower (unicode_lower list_platform) (strip ?m))"
    "\<not> help_rule (lower (unicode_lower list_platform) (strip ?m))"
    using no_h_no_keyword by blast+
  note t = summarize_reply_truncates_at_200[OF p n]
  have st: "strip ?rest = replicate 201 120"
    by (rule strip_space_replicate) simp
  have u: "unicode_lower list_platform = keep_nonascii" by (simp add: list_platform_def)
  have r: "chat_reply keep_nonascii (req_message ?req) = Inr ?r"
    using t[THEN conjunct1] u by simp
  have s: "session_id_or_new list_platform ?w (req_session_id ?req) = (ascii ''s'', ?w)"
    by (simp add: session_id_or_new_def ascii_def)
  have ne: "\<not> length (req_message ?req) < 1" by (simp add: ascii_def)
  have run: "fst (post_api_chat list_platform ?w ?req) = Inr \<lparr>resp_session_id = ascii ''s'', reply = ?r\<rparr>"
    unfolding post_api_chat_def if_not_P[OF ne] chat_list_platform[OF r s] by simp
  have m: "req_message ?req = ?m" by simp
  have l: "200 < length (strip ?rest)" by (simp add: st)
  have p2: "ascii ''summarise:'' \<in> set [ascii ''summarize:'', ascii ''summarise:'']" by simp
  have "\<forall>c\<in>set (ascii ''summarise:'' @ ascii '' plain text ''). c < 128 \<and> c \<noteq> 72 \<and> c \<noteq> 104"
    by (auto simp: ascii_def)
  then have "104 \<notin> set (lower (unicode_lower list_platform)
      (strip (ascii ''summarise:'' @ ascii '' plain text '')))"
    by (rule ascii_no_h)
  then have n2: "\<not> greeting_rule (lower (unicode_lower list_platform)
        (strip (ascii ''summarise:'' @ ascii '' plain text '')))"
    "\<not> help_rule (lower (unicode_lower list_platform)
        (strip (ascii ''summarise:'' @ ascii '' plain text '')))"
    using no_h_no_keyword by blast+
  note t2 = summarize_reply_truncates_at_200[OF p2 n2]
  have st2: "strip (ascii '' plain text '') = ascii ''plain text''"
    by (simp add: strip_def strip_chars_def is_space_def ascii_def)
  have l2: "length (strip (ascii '' plain text '')) \<le> 200"
    unfolding st2 by (simp add: ascii_def)
  from t[THEN conjunct1]
    t[THEN conjunct2, THEN conjunct1, THEN spec, THEN spec, THEN spec, THEN mp, OF conjI[OF m run]]
    t[THEN conjunct2, THEN conjunct2, THEN conjunct1, THEN mp, OF l] st
    t2[THEN conjunct1]
    t2[THEN conjunct2, THEN conjunct2, THEN conjunct2, THEN mp, OF l2] st2
  show ?thesis by (intro conjI)
qed

text \<open>
  C1 as it was stated fails in two ways. The message \<open>summarize: this is it\<close> contains
  \<open>hi\<close> (in \<open>this\<close>), so the greeting rule, which is tried first, answers, and the reply
  holds nothing of the text. And the text after the colon is stripped before it is
  summarised: for \<open>summarize: a b\<close> followed by two spaces the reply ends with \<open>a b\<close>,
  and the text after the colon, with its spaces, is not in it.
\<close>

theorem summarize_reply_counterexample:
  "fst (post_api_chat list_platform \<lparr>db = Some [], uuid_calls = 0\<rparr>
         \<lparr>req_session_id = Some (ascii ''s''), req_message = ascii ''summarize: this is it''\<rparr>)
     = Inr \<lparr>resp_session_id = ascii ''s'', reply = greeting_reply\<rparr>
   \<and> \<not> contains (ascii ''this is it'') greeting_reply
   \<and> fst (post_api_chat list_platform \<lparr>db = Some [], uuid_calls = 0\<rparr>
         \<lparr>req_session_id = Some (ascii ''s''), req_message = ascii ''summarize: a b  ''\<rparr>)
     = Inr \<lparr>resp_session_id = ascii ''s'', reply = summary_prefix @ ascii ''a b''\<rparr>
   \<and> \<not> contains (ascii '' a b  '') (summary_prefix @ ascii ''a b'')"
proof -
  let ?w = "\<lparr>db = Some [], uuid_calls = 0\<rparr> :: store world"
  let ?req1 = "\<lparr>req_session_id = Some (ascii ''s''), req_message = ascii ''summarize: this is it''\<rparr>"
  let ?req2 = "\<lparr>req_session_id = Some (ascii ''s''), req_message = ascii ''summarize: a b  ''\<rparr>"
  have k: "ascii ''hi'' \<in> set [ascii ''hello'', ascii ''hi'', ascii ''hey'']" by simp
  have c: "ci_contains (ascii ''hi'') (req_message ?req1)"
    by (simp add: ci_contains_def ascii_def ascii_lower_def startswith_def)
  have r1: "chat_reply keep_nonascii (req_message ?req1) = Inr greeting_reply"
    using k c by (rule chat_reply_greeting)
  have s1: "session_id_or_new list_platform ?w (req_session_id ?req1) = (ascii ''s'', ?w)"
    by (simp add: session_id_or_new_def ascii_def)
  have ne1: "\<not> length (req_message ?req1) < 1" by (simp add: ascii_def)
  have run1: "fst (post_api_chat list_platform ?w ?req1)
      = Inr \<lparr>resp_session_id = ascii ''s'', reply = greeting_reply\<rparr>"
    unfolding post_api_chat_def if_not_P[OF ne1] chat_list_platform[OF r1 s1] by simp
  have n1: "\<not> contains (ascii ''this is it'') greeting_reply"
    by (simp add: greeting_reply_def ascii_def startswith_def)
  have r2: "chat_reply keep_nonascii (req_message ?req2) = Inr (summary_prefix @ ascii ''a b'')"
    by (simp add: chat_reply_def ascii_def lower_def strip_def strip_chars_def is_space_def
        ascii_lower_def greeting_rule_def help_rule_def summarize_rule_def startswith_def
        summarize_content_def split_once_def index_def keep_nonascii_def)
  have s2: "session_id_or_new list_platform ?w (req_session_id ?req2) = (ascii ''s'', ?w)"
    by (simp add: session_id_or_new_def ascii_def)
  have ne2: "\<not> length (req_message ?req2) < 1" by (simp add: ascii_def)
  have run2: "fst (post_api_chat list_platform ?w ?req2)
      = Inr \<lparr>resp_session_id = ascii ''s'', reply = summary_prefix @ ascii ''a b''\<rparr>"
    unfolding post_api_chat_def if_not_P[OF ne2] chat_list_platform[OF r2 s2] by simp
  have n2: "\<not> contains (ascii '' a b  '') (summary_prefix @ ascii ''a b'')"
    by (simp add: summary_prefix_def ascii_def startswith_def)
  from run1 n1 run2 n2 show ?thesis by (intro conjI)
qed

text \<open>
  C2. The reply rules are total and ordered: for every message \<open>chat\<close> computes a reply
  and raises nothing (the index into the split message is always in range), and the
  reply is that of the first rule that matches in the order greeting keywords, help
  keywords, summarize prefix, todo or task prefix, and the generic reply when none does.
\<close>

theorem chat_reply_first_match:
  "chat_reply lx message = Inr (first_match (reply_rules lx message) fallback_reply)"
  by (simp add: chat_reply_def reply_rules_def Let_def summarize_content_total summary_of_alt
      bullet_list_def bullet_prefix)

theorem chat_reply_first_match_witness:
  "chat_reply keep_nonascii (ascii ''summarize: hi'') = Inr greeting_reply
   \<and> chat_reply keep_nonascii (ascii ''ok'') = Inr fallback_reply"
proof -
  have 1: "first_match (reply_rules keep_nonascii (ascii ''summarize: hi'')) fallback_reply
      = greeting_reply"
    by (simp add: reply_rules_def Let_def greeting_rule_def lower_def strip_def strip_chars_def
        ascii_def is_space_def ascii_lower_def startswith_def)
  have 2: "first_match (reply_rules keep_nonascii (ascii ''ok'')) fallback_reply = fallback_reply"
    by (simp add: reply_rules_def Let_def greeting_rule_def help_rule_def summarize_rule_def
        todo_rule_def lower_def strip_def strip_chars_def ascii_def is_space_def ascii_lower_def startswith_def)
  from chat_reply_first_match[of keep_nonascii "ascii ''summarize: hi''"]
    chat_reply_first_match[of keep_nonascii "ascii ''ok''"] 1 2
  show ?thesis by simp
qed

text \<open>
  C3. For the message made of the line \<open>todo:\<close> followed by the lines \<open>- a\<close> and \<open>- b\<close>,
  the reply lists \<open>a\<close> and \<open>b\<close> as bullets, \<open>a\<close> before \<open>b\<close>, each on its own line after the
  heading \<open>Added to your list:\<close>. The line \<open>todo:\<close> is itself a line of the message and is
  listed as the first bullet.
\<close>

theorem todo_example_bullets:
  "chat_reply (unicode_lower pf) (ascii ''todo:'' @ [10] @ ascii ''- a'' @ [10] @ ascii ''- b'')
     = Inr (ascii ''Added to your list:'' @ [10] @ [8226, 32] @ ascii ''todo:'' @ [10]
        @ [8226, 32] @ ascii ''a'' @ [10] @ [8226, 32] @ ascii ''b'')
   \<and> (\<forall>w req resp.
        req_message req = ascii ''todo:'' @ [10] @ ascii ''- a'' @ [10] @ ascii ''- b''
        \<and> fst (post_api_chat pf w req) = Inr resp
        \<longrightarrow> reply resp = ascii ''Added to your list:'' @ [10] @ [8226, 32] @ ascii ''todo:'' @ [10]
              @ [8226, 32] @ ascii ''a'' @ [10] @ [8226, 32] @ ascii ''b'')"
proof -
  have r: "chat_reply lx (ascii ''todo:'' @ [10] @ ascii ''- a'' @ [10] @ ascii ''- b'')
     = Inr (ascii ''Added to your list:'' @ [10] @ [8226, 32] @ ascii ''todo:'' @ [10]
        @ [8226, 32] @ ascii ''a'' @ [10] @ [8226, 32] @ ascii ''b'')" for lx
    by (simp add: chat_reply_def ascii_def lower_def strip_def strip_chars_def is_space_def
        ascii_lower_def greeting_rule_def help_rule_def summarize_rule_def todo_rule_def
        startswith_def todo_items_def)
  show ?thesis
    using r[of "unicode_lower pf"] reply_of_response[of pf] by fastforce
qed

theorem todo_example_bullets_witness:
  "chat_reply (unicode_lower list_platform)
       (ascii ''todo:'' @ [10] @ ascii ''- a'' @ [10] @ ascii ''- b'')
     = Inr (ascii ''Added to your list:'' @ [10] @ [8226, 32] @ ascii ''todo:'' @ [10]
        @ [8226, 32] @ ascii ''a'' @ [10] @ [8226, 32] @ ascii ''b'')
   \<and> reply \<lparr>resp_session_id = ascii ''s'',
            reply = ascii ''Added to your list:'' @ [10] @ [8226, 32] @ ascii ''todo:'' @ [10]
              @ [8226, 32] @ ascii ''a'' @ [10] @ [8226, 32] @ ascii ''b''\<rparr>
     = ascii ''Added to your list:'' @ [10] @ [8226, 32] @ ascii ''todo:'' @ [10]
        @ [8226, 32] @ ascii ''a'' @ [10] @ [8226, 32] @ ascii ''b''"
proof -
  let ?m = "ascii ''todo:'' @ [10] @ ascii ''- a'' @ [10] @ ascii ''- b''"
  let ?r = "ascii ''Added to your list:'' @ [10] @ [8226, 32] @ ascii ''todo:'' @ [10]
        @ [8226, 32] @ ascii ''a'' @ [10] @ [8226, 32] @ ascii ''b''"
  let ?req = "\<lparr>req_session_id = Some (ascii ''s''), req_message = ?m\<rparr>"
  let ?w = "\<lparr>db = Some [], uuid_calls = 0\<rparr> :: store world"
  note t = todo_example_bullets[of list_platform]
  have u: "unicode_lower list_platform = keep_nonascii" by (simp add: list_platform_def)
  have r: "chat_reply keep_nonascii (req_message ?req) = Inr ?r"
    using t[THEN conjunct1] u by simp
  have s: "session_id_or_new list_platform ?w (req_session_id ?req) = (ascii ''s'', ?w)"
    by (simp add: session_id_or_new_def ascii_def)
  have ne: "\<not> length (req_message ?req) < 1" by simp
  have run: "fst (post_api_chat list_platform ?w ?req) = Inr \<lparr>resp_session_id = ascii ''s'', reply = ?r\<rparr>"
    unfolding post_api_chat_def if_not_P[OF ne] chat_list_platform[OF r s] by simp
  have m: "req_message ?req = ?m" by simp
  from t[THEN conjunct1] t[THEN conjunct2, THEN spec, THEN spec, THEN spec, THEN mp, OF conjI[OF m run]]
  show ?thesis by (rule conjI)
qed

text \<open>
  C4. When the message contains \<open>hello\<close>, \<open>hi\<close> or \<open>hey\<close> in any mix of upper and lower
  case, the reply computed is the greeting template, and the reply of every successful
  \<open>POST /api/chat\<close> starts with it (it is the template and nothing more).
\<close>

theorem greeting_keyword_reply:
  assumes "k \<in> set [ascii ''hello'', ascii ''hi'', ascii ''hey'']"
    and "ci_contains k (req_message req)"
  shows "chat_reply (unicode_lower pf) (req_message req) = Inr greeting_reply
     \<and> (\<forall>w resp. fst (post_api_chat pf w req) = Inr resp \<longrightarrow>
           startswith (reply resp) greeting_reply \<and> reply resp = greeting_reply)"
proof -
  have r: "chat_reply (unicode_lower pf) (req_message req) = Inr greeting_reply"
    using assms by (rule chat_reply_greeting)
  moreover have "startswith (reply resp) greeting_reply \<and> reply resp = greeting_reply"
    if "fst (post_api_chat pf w req) = Inr resp" for w resp
    using reply_of_response[OF that] r by (simp add: startswith_def)
  ultimately show ?thesis by blast
qed

theorem greeting_keyword_reply_witness:
  "chat_reply (unicode_lower list_platform)
       (req_message \<lparr>req_session_id = Some (ascii ''s''), req_message = ascii ''Oh HEY there''\<rparr>)
     = Inr greeting_reply
   \<and> startswith (reply \<lparr>resp_session_id = ascii ''s'', reply = greeting_reply\<rparr>) greeting_reply"
proof -
  let ?req = "\<lparr>req_session_id = Some (ascii ''s''), req_message = ascii ''Oh HEY there''\<rparr>"
  let ?w = "\<lparr>db = Some [], uuid_calls = 0\<rparr> :: store world"
  have k: "ascii ''hey'' \<in> set [ascii ''hello'', ascii ''hi'', ascii ''hey'']" by simp
  have c: "ci_contains (ascii ''hey'') (req_message ?req)"
    by (simp add: ci_contains_def ascii_def ascii_lower_def startswith_def)
  note t = greeting_keyword_reply[OF k c, of list_platform]
  have u: "unicode_lower list_platform = keep_nonascii" by (simp add: list_platform_def)
  have r: "chat_reply keep_nonascii (req_message ?req) = Inr greeting_reply"
    using t[THEN conjunct1] u by simp
  have s: "session_id_or_new list_platform ?w (req_session_id ?req) = (ascii ''s'', ?w)"
    by (simp add: session_id_or_new_def ascii_def)
  have ne: "\<not> length (req_message ?req) < 1" by (simp add: ascii_def)
  have run: "fst (post_api_chat list_platform ?w ?req)
      = Inr \<lparr>resp_session_id = ascii ''s'', reply = greeting_reply\<rparr>"
    unfolding post_api_chat_def if_not_P[OF ne] chat_list_platform[OF r s] by simp
  from t[THEN conjunct1] t[THEN conjunct2, THEN spec, THEN spec, THEN mp, OF run, THEN conjunct1]
  show ?thesis by (rule conjI)
qed

text \<open>
  C5. When the database handle is unavailable (\<open>db\<close> is \<open>None\<close>), \<open>chat\<close> and \<open>get_messages\<close>
  both fail with status 500 and the detail \<open>Database not available\<close>, and nothing else
  happens: the state is as before. The same holds of the two routes for every request
  that passes the validation of its parameters.
\<close>

theorem database_unavailable_500:
  assumes "db w = None"
  shows "chat pf w req = (Inl (HTTPException 500 (ascii ''Database not available'')), w)
     \<and> get_messages pf w sid limit = (Inl (HTTPException 500 (ascii ''Database not available'')), w)
     \<and> (req_message req \<noteq> [] \<longrightarrow>
          post_api_chat pf w req = (Inl (HTTPException 500 (ascii ''Database not available'')), w))
     \<and> (1 \<le> limit \<and> limit \<le> 200 \<longrightarrow>
          get_api_messages pf w (Some sid) (Some limit)
            = (Inl (HTTPException 500 (ascii ''Database not available'')), w))
     \<and> get_api_messages pf w (Some sid) None
          = (Inl (HTTPException 500 (ascii ''Database not available'')), w)"
  using assms by (simp add: chat_def get_messages_def post_api_chat_def get_api_messages_def)

theorem database_unavailable_500_witness:
  "chat list_platform \<lparr>db = None, uuid_calls = 0\<rparr>
       \<lparr>req_session_id = None, req_message = ascii ''hi''\<rparr>
     = (Inl (HTTPException 500 (ascii ''Database not available'')), \<lparr>db = None, uuid_calls = 0\<rparr>)
   \<and> get_messages list_platform \<lparr>db = None, uuid_calls = 0\<rparr> (ascii ''s'') 10
     = (Inl (HTTPException 500 (ascii ''Database not available'')), \<lparr>db = None, uuid_calls = 0\<rparr>)
   \<and> post_api_chat list_platform \<lparr>db = None, uuid_calls = 0\<rparr>
       \<lparr>req_session_id = None, req_message = ascii ''hi''\<rparr>
     = (Inl (HTTPException 500 (ascii ''Database not available'')), \<lparr>db = None, uuid_calls = 0\<rparr>)
   \<and> get_api_messages list_platform \<lparr>db = None, uuid_calls = 0\<rparr> (Some (ascii ''s'')) (Some 10)
     = (Inl (HTTPException 500 (ascii ''Database not available'')), \<lparr>db = None, uuid_calls = 0\<rparr>)
   \<and> get_api_messages list_platform \<lparr>db = None, uuid_calls = 0\<rparr> (Some (ascii ''s'')) None
     = (Inl (HTTPException 500 (ascii ''Database not available'')), \<lparr>db = None, uuid_calls = 0\<rparr>)"
proof -
  have none: "db (\<lparr>db = None, uuid_calls = 0\<rparr> :: store world) = None" by simp
  have msg: "req_message \<lparr>req_session_id = None, req_message = ascii ''hi''\<rparr> \<noteq> []"
    by (simp add: ascii_def)
  from database_unavailable_500[OF none, of list_platform
      "\<lparr>req_session_id = None, req_message = ascii ''hi''\<rparr>" "ascii ''s''" 10] msg
  show ?thesis by simp
qed

text \<open>
  C6. \<open>GET /api/messages\<close> rejects a \<open>limit\<close> outside 1..200, in particular 0 and 201,
  before the handler runs (the answer is the validation error whatever the database
  is), passes a \<open>limit\<close> inside the range to the handler, and takes an omitted \<open>limit\<close>
  as 50.
\<close>

theorem limit_validated_before_handler:
  "(limit < 1 \<or> 200 < limit \<longrightarrow>
      get_api_messages pf w (Some sid) (Some limit) = (Inl RequestValidationError, w))
   \<and> get_api_messages pf w (Some sid) (Some 0) = (Inl RequestValidationError, w)
   \<and> get_api_messages pf w (Some sid) (Some 201) = (Inl RequestValidationError, w)
   \<and> (1 \<le> limit \<and> limit \<le> 200 \<longrightarrow>
      get_api_messages pf w (Some sid) (Some limit) = get_messages pf w sid limit)
   \<and> get_api_messages pf w (Some sid) None = get_messages pf w sid 50"
  by (auto simp: get_api_messages_def)

theorem limit_validated_before_handler_witness:
  "get_api_messages list_platform \<lparr>db = None, uuid_calls = 0\<rparr> (Some (ascii ''s'')) (Some 500)
     = (Inl RequestValidationError, \<lparr>db = None, uuid_calls = 0\<rparr>)
   \<and> get_api_messages list_platform \<lparr>db = Some [], uuid_calls = 0\<rparr> (Some (ascii ''s'')) (Some 200)
     = get_messages list_platform \<lparr>db = Some [], uuid_calls = 0\<rparr> (ascii ''s'') 200"
  using limit_validated_before_handler[of 500 list_platform "\<lparr>db = None, uuid_calls = 0\<rparr>" "ascii ''s''"]
    limit_validated_before_handler[of 200 list_platform "\<lparr>db = Some [], uuid_calls = 0\<rparr>" "ascii ''s''"]
  by simp




text \<open>
  C8. A call of \<open>chat\<close> that succeeds has changed the store by exactly two inserts into
  the collection \<open>message\<close>, in this order: the record with role user and the request's
  message as content, then, on the store that the first insert left, the record with
  role assistant and the returned reply as content; both carry the session id of the
  response.
\<close>

theorem chat_persists_user_then_assistant:
  assumes "chat pf w req = (Inr resp, w')"
  shows "\<exists>d0 d1 d2. db w = Some d0
     \<and> create_document pf (ascii ''message'')
          \<lparr>session_id = resp_session_id resp, role = User, content = req_message req\<rparr> d0 = Inr d1
     \<and> create_document pf (ascii ''message'')
          \<lparr>session_id = resp_session_id resp, role = Assistant, content = reply resp\<rparr> d1 = Inr d2
     \<and> db w' = Some d2"
  using assms by (elim chat_success) auto

theorem chat_persists_user_then_assistant_witness:
  "\<exists>d0 d1 d2. db \<lparr>db = Some [], uuid_calls = 0\<rparr> = Some d0
     \<and> create_document list_platform (ascii ''message'')
          \<lparr>session_id = resp_session_id \<lparr>resp_session_id = ascii ''s'', reply = greeting_reply\<rparr>,
           role = User,
           content = req_message \<lparr>req_session_id = Some (ascii ''s''), req_message = ascii ''hi''\<rparr>\<rparr>
          d0 = Inr d1
     \<and> create_document list_platform (ascii ''message'')
          \<lparr>session_id = resp_session_id \<lparr>resp_session_id = ascii ''s'', reply = greeting_reply\<rparr>,
           role = Assistant,
           content = reply \<lparr>resp_session_id = ascii ''s'', reply = greeting_reply\<rparr>\<rparr>
          d1 = Inr d2
     \<and> db \<lparr>db = Some [(ascii ''message'',
                doc_of_message \<lparr>session_id = ascii ''s'', role = User, content = ascii ''hi''\<rparr>),
             (ascii ''message'',
                doc_of_message \<lparr>session_id = ascii ''s'', role = Assistant, content = greeting_reply\<rparr>)],
           uuid_calls = 0\<rparr> = Some d2"
proof -
  have k: "ascii ''hi'' \<in> set [ascii ''hello'', ascii ''hi'', ascii ''hey'']" by simp
  have c: "ci_contains (ascii ''hi'') (ascii ''hi'')"
    by (simp add: ci_contains_def ascii_def startswith_def)
  have r: "chat_reply keep_nonascii
      (req_message \<lparr>req_session_id = Some (ascii ''s''), req_message = ascii ''hi''\<rparr>) = Inr greeting_reply"
    using chat_reply_greeting[OF k c] by simp
  have s: "session_id_or_new list_platform \<lparr>db = Some [], uuid_calls = 0\<rparr>
      (req_session_id \<lparr>req_session_id = Some (ascii ''s''), req_message = ascii ''hi''\<rparr>)
      = (ascii ''s'', \<lparr>db = Some [], uuid_calls = 0\<rparr>)"
    by (simp add: session_id_or_new_def ascii_def)
  from chat_list_platform[OF r s]
  have run: "chat list_platform \<lparr>db = Some [], uuid_calls = 0\<rparr>
      \<lparr>req_session_id = Some (ascii ''s''), req_message = ascii ''hi''\<rparr>
    = (Inr \<lparr>resp_session_id = ascii ''s'', reply = greeting_reply\<rparr>,
       \<lparr>db = Some [(ascii ''message'',
                doc_of_message \<lparr>session_id = ascii ''s'', role = User, content = ascii ''hi''\<rparr>),
             (ascii ''message'',
                doc_of_message \<lparr>session_id = ascii ''s'', role = Assistant, content = greeting_reply\<rparr>)],
           uuid_calls = 0\<rparr>)"
    by simp
  show ?thesis by (rule chat_persists_user_then_assistant[OF run])
qed

text \<open>
  C9. A \<open>session_id\<close> that is present but empty is treated as an omitted one: \<open>chat\<close> does
  on such a request exactly what it does on the same request without \<open>session_id\<close>,
  and when it succeeds the session id of the response is the identifier that this call
  drew from \<open>uuid.uuid4()\<close>, not the empty string that was supplied.
\<close>

theorem empty_session_id_as_omitted:
  assumes "req_session_id req = Some []"
  shows "chat pf w req = chat pf w (req\<lparr>req_session_id := None\<rparr>)
     \<and> (\<forall>resp w'. chat pf w req = (Inr resp, w') \<longrightarrow>
           resp_session_id resp = uuid4 pf (uuid_calls w) \<and> uuid_calls w' = Suc (uuid_calls w))"
proof (intro conjI allI impI)
  show "chat pf w req = chat pf w (req\<lparr>req_session_id := None\<rparr>)"
    using assms
    by (simp add: chat_def session_id_or_new_empty split: option.splits prod.splits sum.splits)
next
  fix resp w'
  assume "chat pf w req = (Inr resp, w')"
  then show "resp_session_id resp = uuid4 pf (uuid_calls w)"
    using assms by (elim chat_success) (simp add: session_id_or_new_empty session_id_or_new_None)
next
  fix resp w'
  assume "chat pf w req = (Inr resp, w')"
  then show "uuid_calls w' = Suc (uuid_calls w)"
    using assms by (elim chat_success) (auto simp add: session_id_or_new_empty session_id_or_new_None)
qed

theorem empty_session_id_as_omitted_witness:
  "chat list_platform \<lparr>db = Some [], uuid_calls = 0\<rparr>
       \<lparr>req_session_id = Some [], req_message = ascii ''hi''\<rparr>
     = chat list_platform \<lparr>db = Some [], uuid_calls = 0\<rparr>
       (\<lparr>req_session_id = Some [], req_message = ascii ''hi''\<rparr>\<lparr>req_session_id := None\<rparr>)
   \<and> resp_session_id \<lparr>resp_session_id = serial_uuid4 0, reply = greeting_reply\<rparr>
     = uuid4 list_platform (uuid_calls (\<lparr>db = Some [], uuid_calls = 0\<rparr> :: store world))"
proof -
  let ?req = "\<lparr>req_session_id = Some [], req_message = ascii ''hi''\<rparr>"
  have e: "req_session_id ?req = Some []" by simp
  have k: "ascii ''hi'' \<in> set [ascii ''hello'', ascii ''hi'', ascii ''hey'']" by simp
  have c: "ci_contains (ascii ''hi'') (ascii ''hi'')"
    by (simp add: ci_contains_def ascii_def startswith_def)
  have r: "chat_reply keep_nonascii (req_message ?req) = Inr greeting_reply"
    using chat_reply_greeting[OF k c] by simp
  have s: "session_id_or_new list_platform \<lparr>db = Some [], uuid_calls = 0\<rparr> (req_session_id ?req)
      = (serial_uuid4 0, \<lparr>db = Some [], uuid_calls = Suc 0\<rparr>)"
    by (simp add: session_id_or_new_def list_platform_def)
  note run = chat_list_platform[OF r s]
  note t = empty_session_id_as_omitted[OF e, of list_platform "\<lparr>db = Some [], uuid_calls = 0\<rparr>"]
  from t[THEN conjunct1] t[THEN conjunct2, THEN spec, THEN spec, THEN mp, OF run, THEN conjunct1]
  show ?thesis by (rule conjI)
qed

text \<open>
  C10. \<open>get_messages\<close> answers with the messages built from the documents read, in the
  order read, leaving out exactly the documents from which no \<open>Message\<close> can be built.
  A document that lacks the field \<open>session_id\<close>, \<open>role\<close> or \<open>content\<close> is handled as
  the same document with the default in that field (the session id asked for, the role
  \<open>user\<close>, the empty content), so a document with no field at all gives the message made
  of the three defaults.
\<close>

theorem get_messages_defaults_and_skips:
  assumes "db w = Some d"
    and "get_documents pf (ascii ''message'') [(ascii ''session_id'', PyStr sid)] limit d = Inr docs"
  shows "get_messages pf w sid limit
       = (Inr \<lparr>msgs_session_id = sid, messages = List.map_filter (message_of_doc sid) docs\<rparr>, w)
     \<and> (\<forall>x. map_of x (ascii ''session_id'') = None \<longrightarrow>
           message_of_doc sid x = message_of_doc sid ((ascii ''session_id'', PyStr sid) # x))
     \<and> (\<forall>x. map_of x (ascii ''role'') = None \<longrightarrow>
           message_of_doc sid x = message_of_doc sid ((ascii ''role'', PyStr (ascii ''user'')) # x))
     \<and> (\<forall>x. map_of x (ascii ''content'') = None \<longrightarrow>
           message_of_doc sid x = message_of_doc sid ((ascii ''content'', PyStr []) # x))
     \<and> message_of_doc sid [] = Some \<lparr>session_id = sid, role = User, content = []\<rparr>"
proof -
  have keys: "ascii ''session_id'' \<noteq> ascii ''role''" "ascii ''session_id'' \<noteq> ascii ''content''"
    "ascii ''role'' \<noteq> ascii ''content''"
    by (simp_all add: ascii_def)
  have "get_messages pf w sid limit
       = (Inr \<lparr>msgs_session_id = sid, messages = List.map_filter (message_of_doc sid) docs\<rparr>, w)"
    using assms by (simp add: get_messages_def get_messages_loop_map_filter)
  moreover have "message_of_doc sid x = message_of_doc sid ((ascii ''session_id'', PyStr sid) # x)"
    if "map_of x (ascii ''session_id'') = None" for x
    using that keys by (simp add: message_of_doc_def dict_get_def)
  moreover have "message_of_doc sid x = message_of_doc sid ((ascii ''role'', PyStr (ascii ''user'')) # x)"
    if "map_of x (ascii ''role'') = None" for x
    using that keys by (simp add: message_of_doc_def dict_get_def)
  moreover have "message_of_doc sid x = message_of_doc sid ((ascii ''content'', PyStr []) # x)"
    if "map_of x (ascii ''content'') = None" for x
    using that keys by (simp add: message_of_doc_def dict_get_def)
  moreover have "message_of_doc sid [] = Some \<lparr>session_id = sid, role = User, content = []\<rparr>"
    by (simp add: message_of_doc_def dict_get_def Message_user)
  ultimately show ?thesis by blast
qed

theorem get_messages_defaults_and_skips_witness:
  "get_messages list_platform
       \<lparr>db = Some [(ascii ''message'', [(ascii ''session_id'', PyStr (ascii ''s''))]),
                   (ascii ''message'', [(ascii ''session_id'', PyStr (ascii ''s'')),
                                        (ascii ''role'', PyInt 3)]),
                   (ascii ''message'', [(ascii ''session_id'', PyStr (ascii ''s'')),
                                        (ascii ''role'', PyStr (ascii ''assistant'')),
                                        (ascii ''content'', PyStr (ascii ''yo''))])],
         uuid_calls = 0\<rparr> (ascii ''s'') 50
     = (Inr \<lparr>msgs_session_id = ascii ''s'',
            messages = [\<lparr>session_id = ascii ''s'', role = User, content = []\<rparr>,
                        \<lparr>session_id = ascii ''s'', role = Assistant, content = ascii ''yo''\<rparr>]\<rparr>,
        \<lparr>db = Some [(ascii ''message'', [(ascii ''session_id'', PyStr (ascii ''s''))]),
                   (ascii ''message'', [(ascii ''session_id'', PyStr (ascii ''s'')),
                                        (ascii ''role'', PyInt 3)]),
                   (ascii ''message'', [(ascii ''session_id'', PyStr (ascii ''s'')),
                                        (ascii ''role'', PyStr (ascii ''assistant'')),
                                        (ascii ''content'', PyStr (ascii ''yo''))])],
         uuid_calls = 0\<rparr>)
   \<and> message_of_doc (ascii ''s'') [(ascii ''content'', PyStr (ascii ''yo''))]
     = message_of_doc (ascii ''s'')
         [(ascii ''session_id'', PyStr (ascii ''s'')), (ascii ''content'', PyStr (ascii ''yo''))]
   \<and> message_of_doc (ascii ''s'') [(ascii ''content'', PyStr (ascii ''yo''))]
     = message_of_doc (ascii ''s'')
         [(ascii ''role'', PyStr (ascii ''user'')), (ascii ''content'', PyStr (ascii ''yo''))]
   \<and> message_of_doc (ascii ''s'') [(ascii ''role'', PyStr (ascii ''assistant''))]
     = message_of_doc (ascii ''s'')
         [(ascii ''content'', PyStr []), (ascii ''role'', PyStr (ascii ''assistant''))]"
proof -
  let ?d1 = "[(ascii ''session_id'', PyStr (ascii ''s''))]"
  let ?d2 = "[(ascii ''session_id'', PyStr (ascii ''s'')), (ascii ''role'', PyInt 3)]"
  let ?d3 = "[(ascii ''session_id'', PyStr (ascii ''s'')),
              (ascii ''role'', PyStr (ascii ''assistant'')),
              (ascii ''content'', PyStr (ascii ''yo''))]"
  let ?st = "[(ascii ''message'', ?d1), (ascii ''message'', ?d2), (ascii ''message'', ?d3)]"
  have keys: "ascii ''session_id'' \<noteq> ascii ''role''" "ascii ''session_id'' \<noteq> ascii ''content''"
    "ascii ''role'' \<noteq> ascii ''content''" "ascii ''assistant'' \<noteq> ascii ''user''"
    by (simp_all add: ascii_def)
  have 1: "db \<lparr>db = Some ?st, uuid_calls = 0\<rparr> = Some ?st" by simp
  have 2: "get_documents list_platform (ascii ''message'')
      [(ascii ''session_id'', PyStr (ascii ''s''))] 50 ?st = Inr [?d1, ?d2, ?d3]"
    by (simp add: list_platform_def store_get_documents_def)
  have 3: "List.map_filter (message_of_doc (ascii ''s'')) [?d1, ?d2, ?d3]
      = [\<lparr>session_id = ascii ''s'', role = User, content = []\<rparr>,
         \<lparr>session_id = ascii ''s'', role = Assistant, content = ascii ''yo''\<rparr>]"
    using keys
    by (simp add: List.map_filter_simps message_of_doc_def dict_get_def Message_def)
  note t = get_messages_defaults_and_skips[OF 1 2]
  have a: "map_of [(ascii ''content'', PyStr (ascii ''yo''))] (ascii ''session_id'') = None"
    using keys by simp
  have b: "map_of [(ascii ''content'', PyStr (ascii ''yo''))] (ascii ''role'') = None"
    using keys by simp
  have c: "map_of [(ascii ''role'', PyStr (ascii ''assistant''))] (ascii ''content'') = None"
    using keys by simp
  from t[THEN conjunct1] 3
  have r: "get_messages list_platform \<lparr>db = Some ?st, uuid_calls = 0\<rparr> (ascii ''s'') 50
      = (Inr \<lparr>msgs_session_id = ascii ''s'',
            messages = [\<lparr>session_id = ascii ''s'', role = User, content = []\<rparr>,
                        \<lparr>session_id = ascii ''s'', role = Assistant, content = ascii ''yo''\<rparr>]\<rparr>,
         \<lparr>db = Some ?st, uuid_calls = 0\<rparr>)"
    by simp
  from r
    t[THEN conjunct2, THEN conjunct1, THEN spec, THEN mp, OF a]
    t[THEN conjunct2, THEN conjunct2, THEN conjunct1, THEN spec, THEN mp, OF b]
    t[THEN conjunct2, THEN conjunct2, THEN conjunct2, THEN conjunct1, THEN spec, THEN mp, OF c]
  show ?thesis by (intro conjI)
qed

end
